theory Spec2Isabelle
  imports Main "HOL-Library.Sublist" "HOL-Library.Char_ord" "HOL-Library.List_Lexorder"
begin

section \<open>Python strings\<close>

text \<open>
  A Python \<open>str\<close> is a sequence of code points. The model is \<open>string\<close>, whose characters
  are the code points 0 to 255, and every library function below is the Python function
  restricted to that range. Errors of the source are values of \<open>py_error\<close>.
\<close>

datatype py_error = IndexError | ValueError

text \<open>\<open>xs[i]\<close> for a non-negative index: out of range raises IndexError.\<close>

definition py_index :: "'a list \<Rightarrow> nat \<Rightarrow> py_error + 'a" where
  "py_index xs i = (if i < length xs then Inr (xs ! i) else Inl IndexError)"

text \<open>\<open>str.isspace\<close> on one character: the twelve white-space code points below 256.\<close>

definition isspace :: "char \<Rightarrow> bool" where
  "isspace c = (c \<in> set [CHR 0x09, CHR 0x0A, CHR 0x0B, CHR 0x0C, CHR 0x0D, CHR 0x1C,
                          CHR 0x1D, CHR 0x1E, CHR 0x1F, CHR 0x20, CHR 0x85, CHR 0xA0])"

text \<open>\<open>s.strip()\<close>: white space removed at both ends.\<close>

definition strip :: "string \<Rightarrow> string" where
  "strip s = rev (dropWhile isspace (rev (dropWhile isspace s)))"

text \<open>The line boundaries of \<open>str.splitlines\<close> below 256; CR LF counts as one boundary.\<close>

definition is_linebreak :: "char \<Rightarrow> bool" where
  "is_linebreak c = (c \<in> set [CHR 0x0A, CHR 0x0B, CHR 0x0C, CHR 0x0D, CHR 0x1C,
                              CHR 0x1D, CHR 0x1E, CHR 0x85])"

text \<open>\<open>s.splitlines()\<close>: the lines without their boundaries; no empty last line.\<close>

fun splitlines :: "string \<Rightarrow> string list" where
  "splitlines [] = []"
| "splitlines (c # cs) =
     (if is_linebreak c
      then [] # splitlines (if c = CHR 0x0D \<and> take 1 cs = [CHR 0x0A] then tl cs else cs)
      else (case splitlines cs of [] \<Rightarrow> [[c]] | l # ls \<Rightarrow> (c # l) # ls))"

text \<open>The cased letters below 256: each capital beside its small letter.\<close>

definition upper_letters :: string where
  "upper_letters = ''ABCDEFGHIJKLMNOPQRSTUVWXYZ'' @
     [CHR 0xC0, CHR 0xC1, CHR 0xC2, CHR 0xC3, CHR 0xC4, CHR 0xC5, CHR 0xC6, CHR 0xC7,
      CHR 0xC8, CHR 0xC9, CHR 0xCA, CHR 0xCB, CHR 0xCC, CHR 0xCD, CHR 0xCE, CHR 0xCF,
      CHR 0xD0, CHR 0xD1, CHR 0xD2, CHR 0xD3, CHR 0xD4, CHR 0xD5, CHR 0xD6, CHR 0xD8,
      CHR 0xD9, CHR 0xDA, CHR 0xDB, CHR 0xDC, CHR 0xDD, CHR 0xDE]"

definition lower_letters :: string where
  "lower_letters = ''abcdefghijklmnopqrstuvwxyz'' @
     [CHR 0xE0, CHR 0xE1, CHR 0xE2, CHR 0xE3, CHR 0xE4, CHR 0xE5, CHR 0xE6, CHR 0xE7,
      CHR 0xE8, CHR 0xE9, CHR 0xEA, CHR 0xEB, CHR 0xEC, CHR 0xED, CHR 0xEE, CHR 0xEF,
      CHR 0xF0, CHR 0xF1, CHR 0xF2, CHR 0xF3, CHR 0xF4, CHR 0xF5, CHR 0xF6, CHR 0xF8,
      CHR 0xF9, CHR 0xFA, CHR 0xFB, CHR 0xFC, CHR 0xFD, CHR 0xFE]"

text \<open>
  \<open>c.upper()\<close> for a one-character string \<open>c\<close>; the result is a string, since the capital
  of U+00DF is the two letters SS. The capitals of U+00B5 and U+00FF lie above 255 and are
  no ASCII letter; the model leaves these two characters as they are.
\<close>

definition upper1 :: "char \<Rightarrow> string" where
  "upper1 c = (case map_of (zip lower_letters upper_letters) c of
                 Some u \<Rightarrow> [u]
               | None \<Rightarrow> if c = CHR 0xDF then ''SS'' else [c])"

text \<open>\<open>s.lower()\<close>: below 256 every capital has its small letter below 256.\<close>

definition lower1 :: "char \<Rightarrow> char" where
  "lower1 c = (case map_of (zip upper_letters lower_letters) c of Some l \<Rightarrow> l | None \<Rightarrow> c)"

definition lower :: "string \<Rightarrow> string" where
  "lower s = map lower1 s"

text \<open>\<open>sep.join(xs)\<close>.\<close>

fun str_join :: "string \<Rightarrow> string list \<Rightarrow> string" where
  "str_join sep [] = []"
| "str_join sep [x] = x"
| "str_join sep (x # y # ys) = x @ sep @ str_join sep (y # ys)"

text \<open>\<open>s.split(sep)\<close> for a separator of one character: never an empty list.\<close>

fun split_on :: "char \<Rightarrow> string \<Rightarrow> string list" where
  "split_on sep [] = [[]]"
| "split_on sep (c # cs) =
     (if c = sep then [] # split_on sep cs
      else (case split_on sep cs of [] \<Rightarrow> [[c]] | l # ls \<Rightarrow> (c # l) # ls))"

text \<open>\<open>s.endswith(t)\<close> and \<open>s.startswith(t)\<close>.\<close>

definition endswith :: "string \<Rightarrow> string \<Rightarrow> bool" where
  "endswith s t = (length t \<le> length s \<and> drop (length s - length t) s = t)"

definition startswith :: "string \<Rightarrow> string \<Rightarrow> bool" where
  "startswith s t = (take (length t) s = t)"

section \<open>Field Extractor: \<open>parse_tune_block\<close>\<close>

text \<open>
  The dictionary \<open>fields\<close> of \<open>parse_tune_block\<close> (\<open>flds\<close> below). Python's \<open>None\<close> is \<open>None\<close>. The key
  \<open>title\<close> is added after the loop; until then the record holds \<open>None\<close> there.
\<close>

record tune =
  x_number :: "string option"
  titles :: "string list"
  composer :: "string option"
  rhythm :: "string option"
  meter :: "string option"
  unit_length :: "string option"
  key :: "string option"
  tune_text :: string
  title :: "string option"

text \<open>The dictionary literal of lines 63 to 72.\<close>

definition init_fields :: "string \<Rightarrow> tune" where
  "init_fields block =
     \<lparr>x_number = None, titles = [], composer = None, rhythm = None, meter = None,
      unit_length = None, key = None, tune_text = strip block, title = None\<rparr>"

text \<open>
  The body of the loop over the lines (lines 74 to 90). \<open>and\<close> evaluates its right
  operand only when the left one holds; each subscript is a checked read.
\<close>

definition handle_line :: "tune \<Rightarrow> string \<Rightarrow> py_error + tune" where
  "handle_line flds line =
     (if length line \<ge> 2
      then (case py_index line 1 of
              Inl e \<Rightarrow> Inl e
            | Inr c1 \<Rightarrow>
                if c1 = CHR '':''
                then (case py_index line 0 of
                        Inl e \<Rightarrow> Inl e
                      | Inr c0 \<Rightarrow>
                          let tag = upper1 c0; val = strip (drop 2 line)
                          in Inr (if tag = ''X'' then flds\<lparr>x_number := Some val\<rparr>
                                  else if tag = ''T'' then flds\<lparr>titles := titles flds @ [val]\<rparr>
                                  else if tag = ''C'' then flds\<lparr>composer := Some val\<rparr>
                                  else if tag = ''R'' then flds\<lparr>rhythm := Some val\<rparr>
                                  else if tag = ''M'' then flds\<lparr>meter := Some val\<rparr>
                                  else if tag = ''L'' then flds\<lparr>unit_length := Some val\<rparr>
                                  else if tag = ''K'' then flds\<lparr>key := Some val\<rparr>
                                  else flds))
                else Inr flds)
      else Inr flds)"

text \<open>The loop \<open>for line in lines\<close>: an error ends it.\<close>

fun scan_lines :: "tune \<Rightarrow> string list \<Rightarrow> py_error + tune" where
  "scan_lines flds [] = Inr flds"
| "scan_lines flds (line # rest) =
     (case handle_line flds line of
        Inl e \<Rightarrow> Inl e
      | Inr flds' \<Rightarrow> scan_lines flds' rest)"

definition parse_tune_block :: "string \<Rightarrow> py_error + tune" where
  "parse_tune_block block =
     (let lines = splitlines (strip block)
      in case scan_lines (init_fields block) lines of
           Inl e \<Rightarrow> Inl e
         | Inr flds \<Rightarrow>
             Inr (flds\<lparr>title := if titles flds \<noteq> []
                                   then Some (str_join '' / '' (titles flds))
                                   else None\<rparr>))"

section \<open>Segmenter: \<open>TUNE_BLOCK_REGEX.findall\<close>\<close>

text \<open>
  The pattern is \<^verbatim>\<open>(?m)^(X:.*?)(?=(?:\nX:)|\Z)\<close> with DOTALL. The matcher reads the
  text from left to right; \<open>prev\<close> is the character before the position (\<open>None\<close> at the
  start of the text).

  \<open>^\<close> under MULTILINE: the start of the text, or just after a line feed.
\<close>

definition at_line_start :: "char option \<Rightarrow> bool" where
  "at_line_start prev = (prev = None \<or> prev = Some CHR 0x0A)"

text \<open>The look-ahead \<^verbatim>\<open>(?=(?:\nX:)|\Z)\<close> on the rest of the text.\<close>

definition lookahead :: "string \<Rightarrow> bool" where
  "lookahead s = (take 3 s = CHR 0x0A # ''X:'' \<or> s = [])"

text \<open>
  The lazy \<^verbatim>\<open>.*?\<close> before the look-ahead: the shortest prefix, of any characters
  (DOTALL), after which the look-ahead holds.
\<close>

fun lazy_any :: "string \<Rightarrow> string" where
  "lazy_any [] = []"
| "lazy_any (c # cs) = (if lookahead (c # cs) then [] else c # lazy_any cs)"

text \<open>
  \<open>findall\<close>: at each position try the pattern; after a match go on from its end, else
  move one character on. The pattern has one group, which spans the whole match, so the
  result lists the matches.
\<close>

function findall_from :: "char option \<Rightarrow> string \<Rightarrow> string list" where
  "findall_from prev s =
     (if at_line_start prev \<and> take 2 s = ''X:''
      then (let m = take 2 s @ lazy_any (drop 2 s)
            in m # findall_from (Some (last m)) (drop (length m) s))
      else (case s of [] \<Rightarrow> [] | c # cs \<Rightarrow> findall_from (Some c) cs))"
  by pat_completeness auto
termination
proof (relation "measure (\<lambda>(prev, s). length s)")
  show "wf (measure (\<lambda>(prev, s). length s))" by simp
next
  fix prev :: "char option" and s :: string and m :: string
  assume "at_line_start prev \<and> take 2 s = ''X:''" and "m = take 2 s @ lazy_any (drop 2 s)"
  then have "s \<noteq> []" and "0 < length m" by auto
  then show "((Some (last m), drop (length m) s), (prev, s)) \<in> measure (\<lambda>(prev, s). length s)"
    by simp
next
  fix prev :: "char option" and s :: string and c :: char and cs :: string
  assume "s = c # cs"
  then show "((Some c, cs), (prev, s)) \<in> measure (\<lambda>(prev, s). length s)" by simp
qed

declare findall_from.simps [simp del]

definition findall :: "string \<Rightarrow> string list" where
  "findall content = findall_from None content"

text \<open>\<open>parse_abc_file\<close> on the text read from the file: one record for each block.\<close>

fun parse_blocks :: "string list \<Rightarrow> py_error + tune list" where
  "parse_blocks [] = Inr []"
| "parse_blocks (block # blocks) =
     (case parse_tune_block block of
        Inl e \<Rightarrow> Inl e
      | Inr tune \<Rightarrow>
          (case parse_blocks blocks of Inl e \<Rightarrow> Inl e | Inr tunes \<Rightarrow> Inr (tune # tunes)))"

definition parse_content :: "string \<Rightarrow> py_error + tune list" where
  "parse_content content = parse_blocks (findall content)"

section \<open>Book Resolver: \<open>get_book_number_from_path\<close>\<close>

text \<open>
  \<open>os.path\<close> is \<open>posixpath\<close>, with separator \<open>/\<close>. \<open>os.path.join\<close> of two paths:
\<close>

definition path_join :: "string \<Rightarrow> string \<Rightarrow> string" where
  "path_join a b =
     (if startswith b ''/'' then b
      else if a = [] \<or> endswith a ''/'' then a @ b
      else a @ ''/'' @ b)"

text \<open>
  The loop of \<open>normpath\<close> over the components: empty ones and \<open>.\<close> are skipped, \<open>..\<close>
  removes the component before it where there is one to remove.
\<close>

fun norm_comps :: "nat \<Rightarrow> string list \<Rightarrow> string list \<Rightarrow> string list" where
  "norm_comps initial_slashes new_comps [] = new_comps"
| "norm_comps initial_slashes new_comps (cmp # comps) =
     (if cmp = [] \<or> cmp = ''.'' then norm_comps initial_slashes new_comps comps
      else if cmp \<noteq> ''..'' \<or> (initial_slashes = 0 \<and> new_comps = [])
                \<or> (new_comps \<noteq> [] \<and> last new_comps = ''..'')
      then norm_comps initial_slashes (new_comps @ [cmp]) comps
      else if new_comps \<noteq> [] then norm_comps initial_slashes (butlast new_comps) comps
      else norm_comps initial_slashes new_comps comps)"

definition normpath :: "string \<Rightarrow> string" where
  "normpath path =
     (if path = [] then ''.''
      else (let initial_slashes =
                  (if startswith path ''/''
                   then (if startswith path ''//'' \<and> \<not> startswith path ''///'' then 2 else 1)
                   else 0);
                comps = norm_comps initial_slashes [] (split_on CHR ''/'' path);
                joined = replicate initial_slashes CHR ''/'' @ str_join ''/'' comps
            in if joined = [] then ''.'' else joined))"

text \<open>\<open>abspath\<close>: \<open>cwd\<close> is what \<open>os.getcwd()\<close> returns.\<close>

definition abspath :: "string \<Rightarrow> string \<Rightarrow> string" where
  "abspath cwd path =
     (if startswith path ''/'' then normpath path else normpath (path_join cwd path))"

text \<open>\<open>commonprefix\<close> of two lists: their longest common prefix.\<close>

fun commonprefix :: "'a list \<Rightarrow> 'a list \<Rightarrow> 'a list" where
  "commonprefix (x # xs) (y # ys) = (if x = y then x # commonprefix xs ys else [])"
| "commonprefix _ _ = []"

text \<open>\<open>os.path.relpath(path, start)\<close>: an empty \<open>path\<close> raises ValueError.\<close>

definition relpath :: "string \<Rightarrow> string \<Rightarrow> string \<Rightarrow> py_error + string" where
  "relpath cwd path start =
     (if path = [] then Inl ValueError
      else (let start_list = filter (\<lambda>x. x \<noteq> []) (split_on CHR ''/'' (abspath cwd start));
                path_list = filter (\<lambda>x. x \<noteq> []) (split_on CHR ''/'' (abspath cwd path));
                i = length (commonprefix start_list path_list);
                rel_list = replicate (length start_list - i) ''..'' @ drop i path_list
            in if rel_list = [] then Inr ''.''
               else Inr (foldl path_join (hd rel_list) (tl rel_list))))"

text \<open>
  \<open>s.isdigit()\<close>: not empty and every character a digit. Below 256 the digits are \<open>0\<close> to
  \<open>9\<close> and the superscripts U+00B2, U+00B3 and U+00B9.
\<close>

definition isdigit_char :: "char \<Rightarrow> bool" where
  "isdigit_char c = (c \<in> set (''0123456789'' @ [CHR 0xB2, CHR 0xB3, CHR 0xB9]))"

definition isdigit :: "string \<Rightarrow> bool" where
  "isdigit s = (s \<noteq> [] \<and> list_all isdigit_char s)"

text \<open>The value of a decimal digit; \<open>None\<close> for any other character.\<close>

definition digit_value :: "char \<Rightarrow> int option" where
  "digit_value c = map_of (zip ''0123456789'' [0, 1, 2, 3, 4, 5, 6, 7, 8, 9]) c"

text \<open>
  \<open>int(s)\<close> for a string that \<open>isdigit\<close> accepts (no sign, no white space, no underscore):
  the decimal value, and ValueError when a character is no decimal digit.
\<close>

fun int_digits :: "int \<Rightarrow> string \<Rightarrow> py_error + int" where
  "int_digits acc [] = Inr acc"
| "int_digits acc (c # cs) =
     (case digit_value c of
        None \<Rightarrow> Inl ValueError
      | Some d \<Rightarrow> int_digits (10 * acc + d) cs)"

definition py_int :: "string \<Rightarrow> py_error + int" where
  "py_int s = (if s = [] then Inl ValueError else int_digits 0 s)"

definition get_book_number_from_path :: "string \<Rightarrow> string \<Rightarrow> string \<Rightarrow> py_error + int option" where
  "get_book_number_from_path cwd file_path base_dir =
     (case relpath cwd file_path base_dir of
        Inl e \<Rightarrow> Inl e
      | Inr rel \<Rightarrow>
          (let parts = split_on CHR ''/'' rel
           in if length parts \<ge> 2
              then (case py_index parts 0 of
                      Inl e \<Rightarrow> Inl e
                    | Inr parent \<Rightarrow>
                        if isdigit parent
                        then (case py_int parent of Inl e \<Rightarrow> Inl e | Inr n \<Rightarrow> Inr (Some n))
                        else Inr None)
              else Inr None))"

section \<open>Store and Importer\<close>

text \<open>
  One row of the table \<open>tunes\<close>, as the INSERT statement of \<open>insert_tune\<close> writes it: the
  eleven columns it names (SQLite assigns \<open>id\<close>). A connection is the list of the rows of
  the table, oldest first.
\<close>

record db_row =
  db_book :: "int option"
  db_file_path :: string
  db_x_number :: "string option"
  db_title :: "string option"
  db_composer :: "string option"
  db_rhythm :: "string option"
  db_meter :: "string option"
  db_unit_length :: "string option"
  db_key :: "string option"
  db_tune_text :: string
  db_date_added :: string

text \<open>\<open>insert_tune\<close>; \<open>now\<close> is the time read from the clock.\<close>

definition insert_tune :: "db_row list \<Rightarrow> tune \<Rightarrow> int option \<Rightarrow> string \<Rightarrow> string \<Rightarrow> db_row list" where
  "insert_tune conn tune book file_path now =
     conn @ [\<lparr>db_book = book, db_file_path = file_path, db_x_number = x_number tune,
              db_title = title tune, db_composer = composer tune, db_rhythm = rhythm tune,
              db_meter = meter tune, db_unit_length = unit_length tune, db_key = key tune,
              db_tune_text = tune_text tune, db_date_added = now\<rparr>]"

text \<open>
  What the program reads from its surroundings: the working directory, the triples
  \<open>(root, dirs, files)\<close> that \<open>os.walk\<close> yields for a directory, the text of a file (decoded,
  every file that the walk lists can be read), and the clock (\<open>utcnow k\<close> is the time at the
  insert number \<open>k\<close> of a run).
\<close>

record env =
  getcwd :: string
  walk :: "string \<Rightarrow> (string \<times> string list \<times> string list) list"
  read_text :: "string \<Rightarrow> string"
  utcnow :: "nat \<Rightarrow> string"

definition find_abc_files :: "env \<Rightarrow> string \<Rightarrow> string list" where
  "find_abc_files e base_dir =
     sort (concat (map (\<lambda>(root, dirs, files).
                          map (path_join root) (filter (\<lambda>f. endswith (lower f) ''.abc'') files))
                       (walk e base_dir)))"

definition parse_abc_file :: "env \<Rightarrow> string \<Rightarrow> py_error + tune list" where
  "parse_abc_file e file_path = parse_content (read_text e file_path)"

text \<open>The inner loop of \<open>import_abc_books\<close>: one insert for each tune, counted in \<open>total\<close> (\<open>total_count\<close> here).\<close>

fun insert_tunes :: "env \<Rightarrow> db_row list \<times> nat \<Rightarrow> int option \<Rightarrow> string \<Rightarrow> tune list \<Rightarrow> db_row list \<times> nat" where
  "insert_tunes e (conn, total_count) book fpath [] = (conn, total_count)"
| "insert_tunes e (conn, total_count) book fpath (tune # tunes) =
     insert_tunes e (insert_tune conn tune book fpath (utcnow e total_count), total_count + 1) book fpath tunes"

text \<open>The outer loop, over the files: an error ends the run.\<close>

fun import_files :: "env \<Rightarrow> string \<Rightarrow> db_row list \<times> nat \<Rightarrow> string list \<Rightarrow> py_error + db_row list \<times> nat" where
  "import_files e base_dir st [] = Inr st"
| "import_files e base_dir st (fpath # rest) =
     (case get_book_number_from_path (getcwd e) fpath base_dir of
        Inl err \<Rightarrow> Inl err
      | Inr book \<Rightarrow>
          (case parse_abc_file e fpath of
             Inl err \<Rightarrow> Inl err
           | Inr tunes \<Rightarrow> import_files e base_dir (insert_tunes e st book fpath tunes) rest))"

text \<open>
  \<open>import_abc_books\<close>: \<open>conn\<close> holds the rows that the table has when the run begins. The
  result is the value returned, with the table after the run.
\<close>

definition import_abc_books :: "env \<Rightarrow> db_row list \<Rightarrow> string \<Rightarrow> py_error + nat \<times> db_row list" where
  "import_abc_books e conn base_dir =
     (case import_files e base_dir (conn, 0) (find_abc_files e base_dir) of
        Inl err \<Rightarrow> Inl err
      | Inr (conn', total_count) \<Rightarrow> Inr (total_count, conn'))"

section \<open>Queries over the data frame\<close>

text \<open>
  The data frame is the list of the rows. \<open>fillna(d)\<close> on one cell:
\<close>

definition fillna :: "string \<Rightarrow> string option \<Rightarrow> string" where
  "fillna d v = (case v of None \<Rightarrow> d | Some s \<Rightarrow> s)"

text \<open>
  \<open>Series.str.contains(pat)\<close> is called with its defaults, so \<open>regex=True\<close>: a cell is kept
  when \<open>re.search(pat, cell)\<close> finds a match. The model covers the patterns made of
  characters that stand for themselves and of \<open>.\<close>, which matches every character but the
  line feed; \<open>parse_pattern\<close> is \<open>None\<close> for a pattern with any other special character.
\<close>

datatype atom = Lit char | AnyChar

definition special_chars :: string where
  "special_chars = ''.^$*+?{}[]|()'' @ [CHR 0x5C]"

fun parse_pattern :: "string \<Rightarrow> atom list option" where
  "parse_pattern [] = Some []"
| "parse_pattern (c # cs) =
     (case parse_pattern cs of
        None \<Rightarrow> None
      | Some atoms \<Rightarrow>
          if c = CHR ''.'' then Some (AnyChar # atoms)
          else if c \<in> set special_chars then None
          else Some (Lit c # atoms))"

fun atom_matches :: "atom \<Rightarrow> char \<Rightarrow> bool" where
  "atom_matches (Lit x) c = (c = x)"
| "atom_matches AnyChar c = (c \<noteq> CHR 0x0A)"

text \<open>A match that begins at the head of the text.\<close>

fun match_here :: "atom list \<Rightarrow> string \<Rightarrow> bool" where
  "match_here [] s = True"
| "match_here (a # atoms) [] = False"
| "match_here (a # atoms) (c # cs) = (atom_matches a c \<and> match_here atoms cs)"

text \<open>\<open>re.search\<close>: a match that begins anywhere in the text.\<close>

fun re_search :: "atom list \<Rightarrow> string \<Rightarrow> bool" where
  "re_search atoms [] = match_here atoms []"
| "re_search atoms (c # cs) = (match_here atoms (c # cs) \<or> re_search atoms cs)"

definition str_contains :: "string \<Rightarrow> string \<Rightarrow> bool option" where
  "str_contains pat cell = map_option (\<lambda>atoms. re_search atoms cell) (parse_pattern pat)"

text \<open>
  \<open>df[mask]\<close> for the mask that \<open>contains\<close> gives on a column; \<open>None\<close> when the pattern
  lies outside the model.
\<close>

definition rows_containing :: "(db_row \<Rightarrow> string option) \<Rightarrow> db_row list \<Rightarrow> string \<Rightarrow> db_row list option" where
  "rows_containing column df term =
     map_option (\<lambda>atoms. filter (\<lambda>row. re_search atoms (lower (fillna [] (column row)))) df)
       (parse_pattern (lower term))"

definition get_tunes_by_type :: "db_row list \<Rightarrow> string \<Rightarrow> db_row list option" where
  "get_tunes_by_type df tune_type = rows_containing db_rhythm df tune_type"

definition search_tunes :: "db_row list \<Rightarrow> string \<Rightarrow> db_row list option" where
  "search_tunes df search_term = rows_containing db_title df search_term"

text \<open>
  \<open>value_counts\<close> first tallies the values, each value at the place of its first
  occurrence:
\<close>

fun tally :: "('a \<times> nat) list \<Rightarrow> 'a \<Rightarrow> ('a \<times> nat) list" where
  "tally [] x = [(x, 1)]"
| "tally ((k, n) # rest) x = (if k = x then (k, n + 1) # rest else (k, n) # tally rest x)"

definition count_values :: "'a list \<Rightarrow> ('a \<times> nat) list" where
  "count_values xs = foldl tally [] xs"

text \<open>\<open>s.head(n)\<close>: the first \<open>n\<close> rows, and all but the last \<open>-n\<close> rows for a negative \<open>n\<close>.\<close>

definition head :: "'a list \<Rightarrow> int \<Rightarrow> 'a list" where
  "head xs n = (if 0 \<le> n then take (nat n) xs else take (length xs - nat (- n)) xs)"

text \<open>
  \<open>top_composers\<close>. After the tally \<open>value_counts\<close> orders the rows by count, largest
  first, with \<open>sort_values\<close>; the source does not fix the order that this gives to equal
  counts, and the ordering is the parameter \<open>sort_values\<close> here.
\<close>

definition top_composers :: "((string \<times> nat) list \<Rightarrow> (string \<times> nat) list) \<Rightarrow> db_row list \<Rightarrow> int \<Rightarrow> (string \<times> nat) list" where
  "top_composers sort_values df top_n =
     (let comp = map (\<lambda>row. fillna ''Unknown'' (db_composer row)) df
      in head (sort_values (count_values comp)) top_n)"

section \<open>The words of the specification\<close>

text \<open>
  A line carries the tag \<open>up\<close> when it begins with that letter, capital \<open>up\<close> or small
  \<open>lo\<close>, and a colon; its value is the text after the colon, trimmed.
\<close>

definition tag_line :: "char \<Rightarrow> char \<Rightarrow> string \<Rightarrow> bool" where
  "tag_line up lo line = (take 2 line = [up, CHR '':''] \<or> take 2 line = [lo, CHR '':''])"

definition line_value :: "string \<Rightarrow> string" where
  "line_value line = strip (drop 2 line)"

definition tag_values :: "char \<Rightarrow> char \<Rightarrow> string list \<Rightarrow> string list" where
  "tag_values up lo lines = map line_value (filter (tag_line up lo) lines)"

text \<open>The last element of a list, \<open>d\<close> when there is none.\<close>

definition last_or :: "'a option \<Rightarrow> 'a list \<Rightarrow> 'a option" where
  "last_or d xs = (if xs = [] then d else Some (last xs))"

text \<open>A tagged field line: at least two characters, the second a colon.\<close>

definition is_tagged :: "string \<Rightarrow> bool" where
  "is_tagged line = (length line \<ge> 2 \<and> line ! 1 = CHR '':'')"

text \<open>A line with one of the seven recognised tags.\<close>

definition recognised :: "string \<Rightarrow> bool" where
  "recognised line =
     (tag_line CHR ''X'' CHR ''x'' line \<or> tag_line CHR ''T'' CHR ''t'' line \<or>
      tag_line CHR ''C'' CHR ''c'' line \<or> tag_line CHR ''R'' CHR ''r'' line \<or>
      tag_line CHR ''M'' CHR ''m'' line \<or> tag_line CHR ''L'' CHR ''l'' line \<or>
      tag_line CHR ''K'' CHR ''k'' line)"

text \<open>The effect of one line on the fields, by the table of tags.\<close>

definition step_line :: "tune \<Rightarrow> string \<Rightarrow> tune" where
  "step_line flds line =
     (if tag_line CHR ''X'' CHR ''x'' line then flds\<lparr>x_number := Some (line_value line)\<rparr>
      else if tag_line CHR ''T'' CHR ''t'' line then flds\<lparr>titles := titles flds @ [line_value line]\<rparr>
      else if tag_line CHR ''C'' CHR ''c'' line then flds\<lparr>composer := Some (line_value line)\<rparr>
      else if tag_line CHR ''R'' CHR ''r'' line then flds\<lparr>rhythm := Some (line_value line)\<rparr>
      else if tag_line CHR ''M'' CHR ''m'' line then flds\<lparr>meter := Some (line_value line)\<rparr>
      else if tag_line CHR ''L'' CHR ''l'' line then flds\<lparr>unit_length := Some (line_value line)\<rparr>
      else if tag_line CHR ''K'' CHR ''k'' line then flds\<lparr>key := Some (line_value line)\<rparr>
      else flds)"

text \<open>
  The lines of a text are its pieces between line feeds. A record-start marker is a line
  that begins with \<open>X:\<close>.
\<close>

definition text_lines :: "string \<Rightarrow> string list" where
  "text_lines content = split_on CHR 0x0A content"

definition is_marker :: "string \<Rightarrow> bool" where
  "is_marker line = (take 2 line = ''X:'')"

text \<open>
  The blocks of a list of lines, read from its end: \<open>group_lines ls\<close> is the pair of the
  lines before the first marker of \<open>ls\<close> and the blocks, each a marker with the lines up to
  the next marker.
\<close>

fun group_lines :: "string list \<Rightarrow> string list \<times> string list list" where
  "group_lines [] = ([], [])"
| "group_lines (l # ls) =
     (case group_lines ls of
        (pending, blocks) \<Rightarrow>
          if is_marker l then ([], (l # pending) # blocks) else (l # pending, blocks))"

definition blocks_of_lines :: "string list \<Rightarrow> string list list" where
  "blocks_of_lines ls = snd (group_lines ls)"

section \<open>The Field Extractor: lemmas\<close>

lemma upper1_cases:
  "upper1 c = ''X'' \<longleftrightarrow> c = CHR ''X'' \<or> c = CHR ''x''"
  "upper1 c = ''T'' \<longleftrightarrow> c = CHR ''T'' \<or> c = CHR ''t''"
  "upper1 c = ''C'' \<longleftrightarrow> c = CHR ''C'' \<or> c = CHR ''c''"
  "upper1 c = ''R'' \<longleftrightarrow> c = CHR ''R'' \<or> c = CHR ''r''"
  "upper1 c = ''M'' \<longleftrightarrow> c = CHR ''M'' \<or> c = CHR ''m''"
  "upper1 c = ''L'' \<longleftrightarrow> c = CHR ''L'' \<or> c = CHR ''l''"
  "upper1 c = ''K'' \<longleftrightarrow> c = CHR ''K'' \<or> c = CHR ''k''"
  by (auto simp: upper1_def upper_letters_def lower_letters_def split: if_splits)

lemma tag_line_iff:
  "tag_line up lo line \<longleftrightarrow> (length line \<ge> 2 \<and> line ! 1 = CHR '':'' \<and> (line ! 0 = up \<or> line ! 0 = lo))"
proof (cases line)
  case Nil
  then show ?thesis by (simp add: tag_line_def)
next
  case (Cons a as)
  then show ?thesis by (cases as) (auto simp: tag_line_def)
qed

lemma handle_line_step: "handle_line flds line = Inr (step_line flds line)"
  by (simp add: handle_line_def step_line_def py_index_def tag_line_iff upper1_cases line_value_def Let_def)

lemma scan_lines_foldl: "scan_lines flds lines = Inr (foldl step_line flds lines)"
  by (induction lines arbitrary: flds) (simp_all add: handle_line_step)

lemma last_or_Cons: "last_or d (v # vs) = last_or (Some v) vs"
  by (simp add: last_or_def)

lemma tag_line_excl:
  "tag_line up lo line \<Longrightarrow> up' \<noteq> up \<Longrightarrow> up' \<noteq> lo \<Longrightarrow> lo' \<noteq> up \<Longrightarrow> lo' \<noteq> lo
     \<Longrightarrow> \<not> tag_line up' lo' line"
  by (auto simp: tag_line_def)

lemma foldl_step_x_number:
  "x_number (foldl step_line f ls) = last_or (x_number f) (tag_values CHR ''X'' CHR ''x'' ls)"
  by (induction ls arbitrary: f) (auto simp: step_line_def tag_values_def last_or_def tag_line_def)

lemma foldl_step_composer:
  "composer (foldl step_line f ls) = last_or (composer f) (tag_values CHR ''C'' CHR ''c'' ls)"
  by (induction ls arbitrary: f) (auto simp: step_line_def tag_values_def last_or_def tag_line_def)

lemma foldl_step_rhythm:
  "rhythm (foldl step_line f ls) = last_or (rhythm f) (tag_values CHR ''R'' CHR ''r'' ls)"
  by (induction ls arbitrary: f) (auto simp: step_line_def tag_values_def last_or_def tag_line_def)

lemma foldl_step_meter:
  "meter (foldl step_line f ls) = last_or (meter f) (tag_values CHR ''M'' CHR ''m'' ls)"
  by (induction ls arbitrary: f) (auto simp: step_line_def tag_values_def last_or_def tag_line_def)

lemma foldl_step_unit_length:
  "unit_length (foldl step_line f ls) = last_or (unit_length f) (tag_values CHR ''L'' CHR ''l'' ls)"
  by (induction ls arbitrary: f) (auto simp: step_line_def tag_values_def last_or_def tag_line_def)

lemma foldl_step_key:
  "key (foldl step_line f ls) = last_or (key f) (tag_values CHR ''K'' CHR ''k'' ls)"
  by (induction ls arbitrary: f) (auto simp: step_line_def tag_values_def last_or_def tag_line_def)

lemma foldl_step_titles:
  "titles (foldl step_line f ls) = titles f @ tag_values CHR ''T'' CHR ''t'' ls"
  by (induction ls arbitrary: f) (auto simp: step_line_def tag_values_def tag_line_def)

lemma foldl_step_tune_text: "tune_text (foldl step_line f ls) = tune_text f"
  by (induction ls arbitrary: f) (auto simp: step_line_def)

lemma foldl_step_title: "title (foldl step_line f ls) = title f"
  by (induction ls arbitrary: f) (auto simp: step_line_def)

lemma parse_tune_block_eq:
  "parse_tune_block block =
     Inr ((foldl step_line (init_fields block) (splitlines (strip block)))
            \<lparr>title := if titles (foldl step_line (init_fields block) (splitlines (strip block))) \<noteq> []
                      then Some (str_join '' / '' (titles (foldl step_line (init_fields block) (splitlines (strip block)))))
                      else None\<rparr>)"
  by (simp add: parse_tune_block_def scan_lines_foldl Let_def)

lemma step_line_unrecognised: "\<not> recognised line \<Longrightarrow> step_line flds line = flds"
  by (simp add: recognised_def step_line_def)

lemma foldl_step_unrecognised:
  "\<forall>line \<in> set ls. \<not> recognised line \<Longrightarrow> foldl step_line f ls = f"
  by (induction ls arbitrary: f) (simp_all add: step_line_unrecognised)

lemma recognised_tagged: "recognised line \<Longrightarrow> is_tagged line"
  by (auto simp: recognised_def is_tagged_def tag_line_iff)

lemma foldl_step_filter:
  "foldl step_line f (filter recognised ls) = foldl step_line f ls"
  by (induction ls arbitrary: f) (simp_all add: step_line_unrecognised)

section \<open>The Field Extractor: claims\<close>

text \<open>
  Claim C2. For every block, the Field Extractor returns a record in which each scalar
  field (\<open>x_number\<close>, \<open>composer\<close>, \<open>rhythm\<close>, \<open>meter\<close>, \<open>unit_length\<close>, \<open>key\<close>) holds the
  value of the last line of the trimmed block that carries its tag, and is absent when
  no line carries it, while \<open>titles\<close> lists the values of all the \<open>T:\<close> and \<open>t:\<close> lines in
  their order.
\<close>
theorem scalar_fields_last_titles_all:
  "\<exists>r. parse_tune_block block = Inr r
     \<and> x_number r = last_or None (tag_values CHR ''X'' CHR ''x'' (splitlines (strip block)))
     \<and> composer r = last_or None (tag_values CHR ''C'' CHR ''c'' (splitlines (strip block)))
     \<and> rhythm r = last_or None (tag_values CHR ''R'' CHR ''r'' (splitlines (strip block)))
     \<and> meter r = last_or None (tag_values CHR ''M'' CHR ''m'' (splitlines (strip block)))
     \<and> unit_length r = last_or None (tag_values CHR ''L'' CHR ''l'' (splitlines (strip block)))
     \<and> key r = last_or None (tag_values CHR ''K'' CHR ''k'' (splitlines (strip block)))
     \<and> titles r = tag_values CHR ''T'' CHR ''t'' (splitlines (strip block))"
  by (simp add: parse_tune_block_eq foldl_step_x_number foldl_step_composer foldl_step_rhythm
      foldl_step_meter foldl_step_unit_length foldl_step_key foldl_step_titles init_fields_def)

text \<open>An instance of C2: two title lines and a key given twice.\<close>
theorem scalar_fields_last_titles_all_witness:
  "\<exists>r. parse_tune_block ''X:1\<newline>T:A\<newline>K:D\<newline>t:B \<newline>k: G\<newline>abc'' = Inr r
     \<and> x_number r = Some ''1'' \<and> composer r = None \<and> key r = Some ''G''
     \<and> titles r = [''A'', ''B'']"
  using scalar_fields_last_titles_all [of "''X:1\<newline>T:A\<newline>K:D\<newline>t:B \<newline>k: G\<newline>abc''"]
  by (auto simp: strip_def isspace_def is_linebreak_def tag_values_def tag_line_def
      line_value_def last_or_def)

text \<open>
  Claim C5. In every record that the Field Extractor returns, \<open>title\<close> is the elements of
  \<open>titles\<close> joined with \<open>" / "\<close> when \<open>titles\<close> is not empty, and \<open>title\<close> is absent exactly
  when \<open>titles\<close> is empty; no line of the block changes \<open>title\<close>, which is set from
  \<open>titles\<close> alone after the loop.
\<close>
theorem title_joined_from_titles:
  assumes "parse_tune_block block = Inr r"
  shows "(titles r \<noteq> [] \<longrightarrow> title r = Some (str_join '' / '' (titles r)))
       \<and> (title r = None \<longleftrightarrow> titles r = [])
       \<and> (\<forall>flds line flds'. handle_line flds line = Inr flds' \<longrightarrow> title flds' = title flds)"
  using assms by (auto simp: parse_tune_block_eq handle_line_step step_line_def split: if_splits)

text \<open>An instance of C5 on a block with two titles.\<close>
theorem title_joined_from_titles_witness:
  "parse_tune_block ''X:1\<newline>T:A\<newline>K:D\<newline>t:B'' =
     Inr \<lparr>x_number = Some ''1'', titles = [''A'', ''B''], composer = None, rhythm = None,
          meter = None, unit_length = None, key = Some ''D'',
          tune_text = ''X:1\<newline>T:A\<newline>K:D\<newline>t:B'', title = Some ''A / B''\<rparr>
   \<and> str_join '' / '' [''A'', ''B''] = ''A / B''
   \<and> handle_line (init_fields []) ''T:x'' = Inr ((init_fields [])\<lparr>titles := [''x'']\<rparr>)
   \<and> title ((init_fields [])\<lparr>titles := [''x'']\<rparr>) = title (init_fields [])"
proof -
  have p: "parse_tune_block ''X:1\<newline>T:A\<newline>K:D\<newline>t:B'' =
     Inr \<lparr>x_number = Some ''1'', titles = [''A'', ''B''], composer = None, rhythm = None,
          meter = None, unit_length = None, key = Some ''D'',
          tune_text = ''X:1\<newline>T:A\<newline>K:D\<newline>t:B'', title = Some ''A / B''\<rparr>"
    by (simp add: parse_tune_block_eq init_fields_def step_line_def tag_line_def line_value_def
        strip_def isspace_def is_linebreak_def)
  have h: "handle_line (init_fields []) ''T:x'' = Inr ((init_fields [])\<lparr>titles := [''x'']\<rparr>)"
    by (simp add: handle_line_step init_fields_def step_line_def tag_line_def line_value_def
        strip_def isspace_def)
  from title_joined_from_titles [OF p] p h show ?thesis by simp
qed

text \<open>
  Claim C6. For every input string the Field Extractor returns a record and no error;
  its body is the trimmed input; a line without a recognised tag leaves the fields as
  they are, so the lines without one can be dropped; and when no line of the trimmed
  block is a tagged field line, every structured field is absent and \<open>titles\<close> is empty.
\<close>
theorem parse_never_fails:
  "\<exists>r. parse_tune_block block = Inr r \<and> tune_text r = strip block
     \<and> (\<forall>flds line. \<not> recognised line \<longrightarrow> handle_line flds line = Inr flds)
     \<and> scan_lines (init_fields block) (filter recognised (splitlines (strip block)))
         = scan_lines (init_fields block) (splitlines (strip block))
     \<and> ((\<forall>line \<in> set (splitlines (strip block)). \<not> is_tagged line) \<longrightarrow>
          r = \<lparr>x_number = None, titles = [], composer = None, rhythm = None, meter = None,
               unit_length = None, key = None, tune_text = strip block, title = None\<rparr>)"
proof -
  let ?f = "foldl step_line (init_fields block) (splitlines (strip block))"
  let ?r = "?f\<lparr>title := if titles ?f \<noteq> [] then Some (str_join '' / '' (titles ?f)) else None\<rparr>"
  have 1: "parse_tune_block block = Inr ?r"
    by (rule parse_tune_block_eq)
  have 2: "tune_text ?r = strip block"
    by (simp add: foldl_step_tune_text init_fields_def)
  have 3: "\<forall>flds line. \<not> recognised line \<longrightarrow> handle_line flds line = Inr flds"
    by (simp add: handle_line_step step_line_unrecognised)
  have 4: "scan_lines (init_fields block) (filter recognised (splitlines (strip block)))
         = scan_lines (init_fields block) (splitlines (strip block))"
    by (simp add: scan_lines_foldl foldl_step_filter)
  have 5: "?r = \<lparr>x_number = None, titles = [], composer = None, rhythm = None, meter = None,
               unit_length = None, key = None, tune_text = strip block, title = None\<rparr>"
    if "\<forall>line \<in> set (splitlines (strip block)). \<not> is_tagged line"
  proof -
    from that have "\<forall>line \<in> set (splitlines (strip block)). \<not> recognised line"
      using recognised_tagged by blast
    then have "?f = init_fields block"
      by (rule foldl_step_unrecognised)
    then show ?thesis
      by (simp add: init_fields_def)
  qed
  from 1 2 3 4 5 show ?thesis
    by blast
qed

text \<open>An instance of C6: a block of two music lines, and one unrecognised tag.\<close>
theorem parse_never_fails_witness:
  "splitlines (strip '' GABc|\<newline>dedB|]  \<newline>'') = [''GABc|'', ''dedB|]'']
   \<and> \<not> is_tagged ''GABc|'' \<and> \<not> is_tagged ''dedB|]''
   \<and> \<not> recognised ''w:la'' \<and> handle_line (init_fields []) ''w:la'' = Inr (init_fields [])
   \<and> parse_tune_block '' GABc|\<newline>dedB|]  \<newline>'' =
       Inr \<lparr>x_number = None, titles = [], composer = None, rhythm = None, meter = None,
            unit_length = None, key = None, tune_text = ''GABc|\<newline>dedB|]'', title = None\<rparr>"
proof -
  have l: "splitlines (strip '' GABc|\<newline>dedB|]  \<newline>'') = [''GABc|'', ''dedB|]'']"
    by (simp add: strip_def isspace_def is_linebreak_def)
  have n: "\<not> is_tagged ''GABc|''" "\<not> is_tagged ''dedB|]''"
    by (simp_all add: is_tagged_def)
  have h: "\<forall>line \<in> set (splitlines (strip '' GABc|\<newline>dedB|]  \<newline>'')). \<not> is_tagged line"
    using n by (simp add: l)
  have u: "\<not> recognised ''w:la''" by (simp add: recognised_def tag_line_def)
  have s: "strip '' GABc|\<newline>dedB|]  \<newline>'' = ''GABc|\<newline>dedB|]''"
    by (simp add: strip_def isspace_def)
  obtain r where r: "parse_tune_block '' GABc|\<newline>dedB|]  \<newline>'' = Inr r"
    and t: "\<forall>flds line. \<not> recognised line \<longrightarrow> handle_line flds line = Inr flds"
    and e: "(\<forall>line \<in> set (splitlines (strip '' GABc|\<newline>dedB|]  \<newline>'')). \<not> is_tagged line) \<longrightarrow>
          r = \<lparr>x_number = None, titles = [], composer = None, rhythm = None, meter = None,
               unit_length = None, key = None, tune_text = strip '' GABc|\<newline>dedB|]  \<newline>'', title = None\<rparr>"
    using parse_never_fails [of "'' GABc|\<newline>dedB|]  \<newline>''"] by blast
  from e h have "r = \<lparr>x_number = None, titles = [], composer = None, rhythm = None, meter = None,
               unit_length = None, key = None, tune_text = strip '' GABc|\<newline>dedB|]  \<newline>'', title = None\<rparr>"
    by blast
  with r s have "parse_tune_block '' GABc|\<newline>dedB|]  \<newline>'' =
       Inr \<lparr>x_number = None, titles = [], composer = None, rhythm = None, meter = None,
            unit_length = None, key = None, tune_text = ''GABc|\<newline>dedB|]'', title = None\<rparr>"
    by simp
  moreover from t u have "handle_line (init_fields []) ''w:la'' = Inr (init_fields [])"
    by blast
  ultimately show ?thesis using l n u by blast
qed

section \<open>The Segmenter: lemmas\<close>

lemma split_on_not_Nil: "split_on sep s \<noteq> []"
  by (induction s) (auto split: list.splits)

lemma text_lines_Nil: "text_lines [] = [[]]"
  by (simp add: text_lines_def)

lemma text_lines_LF: "text_lines (CHR 0x0A # cs) = [] # text_lines cs"
  by (simp add: text_lines_def)

lemma text_lines_other:
  "c \<noteq> CHR 0x0A \<Longrightarrow> text_lines (c # cs) = (c # hd (text_lines cs)) # tl (text_lines cs)"
  using split_on_not_Nil [of "CHR 0x0A" cs]
  by (auto simp: text_lines_def split: list.splits)

lemma text_lines_not_Nil: "text_lines s \<noteq> []"
  by (simp add: text_lines_def split_on_not_Nil)

lemma hd_text_lines_marker: "is_marker (hd (text_lines s)) \<longleftrightarrow> take 2 s = ''X:''"
proof (cases s)
  case Nil
  then show ?thesis by (simp add: text_lines_Nil is_marker_def)
next
  case (Cons a as)
  note s = Cons
  show ?thesis
  proof (cases "a = CHR 0x0A")
    case True
    with s show ?thesis by (auto simp: text_lines_LF is_marker_def)
  next
    case False
    note a = False
    show ?thesis
    proof (cases as)
      case Nil
      with s a show ?thesis by (simp add: text_lines_other text_lines_Nil is_marker_def)
    next
      case (Cons b bs)
      show ?thesis
      proof (cases "b = CHR 0x0A")
        case True
        with s a Cons show ?thesis by (auto simp: text_lines_other text_lines_LF is_marker_def)
      next
        case False
        with s a Cons show ?thesis by (simp add: text_lines_other is_marker_def)
      qed
    qed
  qed
qed

lemma str_join_Cons_Cons: "str_join sep ((c # l) # ls) = c # str_join sep (l # ls)"
  by (cases ls) simp_all

lemma str_join_Nil_Cons: "str_join sep ([] # l # ls) = sep @ str_join sep (l # ls)"
  by simp

lemma lookahead_Cons: "lookahead (c # cs) \<longleftrightarrow> c = CHR 0x0A \<and> take 2 cs = ''X:''"
  by (auto simp: lookahead_def)

lemma lazy_any_lines:
  "lazy_any s = str_join [CHR 0x0A]
                 (hd (text_lines s) # takeWhile (Not \<circ> is_marker) (tl (text_lines s)))"
proof (induction s)
  case Nil
  then show ?case by (simp add: text_lines_Nil)
next
  case (Cons c cs)
  obtain l ls where ls: "text_lines cs = l # ls"
    using text_lines_not_Nil [of cs] by (cases "text_lines cs") auto
  have m: "is_marker l \<longleftrightarrow> take 2 cs = ''X:''"
    using hd_text_lines_marker [of cs] ls by simp
  show ?case
  proof (cases "c = CHR 0x0A")
    case True
    with Cons ls m show ?thesis
      by (simp add: text_lines_LF lookahead_Cons)
  next
    case False
    with Cons ls show ?thesis
      by (simp add: text_lines_other lookahead_Cons str_join_Cons_Cons)
  qed
qed

lemma str_join_text_lines: "str_join [CHR 0x0A] (text_lines s) = s"
proof (induction s)
  case Nil
  then show ?case by (simp add: text_lines_Nil)
next
  case (Cons c cs)
  obtain l ls where ls: "text_lines cs = l # ls"
    using text_lines_not_Nil [of cs] by (cases "text_lines cs") auto
  with Cons show ?case
    by (cases "c = CHR 0x0A") (simp_all add: text_lines_LF text_lines_other str_join_Cons_Cons)
qed

lemma lazy_any_rest1:
  "drop (length (lazy_any s)) s =
     (case dropWhile (Not \<circ> is_marker) (tl (text_lines s)) of
        [] \<Rightarrow> [] | m # ms \<Rightarrow> CHR 0x0A # str_join [CHR 0x0A] (m # ms))"
proof (induction s)
  case Nil
  then show ?case by (simp add: text_lines_Nil)
next
  case (Cons c cs)
  obtain l ls where ls: "text_lines cs = l # ls"
    using text_lines_not_Nil [of cs] by (cases "text_lines cs") auto
  have m: "is_marker l \<longleftrightarrow> take 2 cs = ''X:''"
    using hd_text_lines_marker [of cs] ls by simp
  show ?case
  proof (cases "c = CHR 0x0A")
    case True
    with Cons ls m show ?thesis
      using str_join_text_lines [of cs]
      by (auto simp: text_lines_LF lookahead_Cons split: list.splits)
  next
    case False
    with Cons ls show ?thesis
      by (simp add: text_lines_other lookahead_Cons)
  qed
qed

lemma lazy_any_rest2:
  "dropWhile (Not \<circ> is_marker) (tl (text_lines s)) \<noteq> [] \<Longrightarrow>
     text_lines (tl (drop (length (lazy_any s)) s)) = dropWhile (Not \<circ> is_marker) (tl (text_lines s))"
proof (induction s)
  case Nil
  then show ?case by (simp add: text_lines_Nil)
next
  case (Cons c cs)
  obtain l ls where ls: "text_lines cs = l # ls"
    using text_lines_not_Nil [of cs] by (cases "text_lines cs") auto
  have m: "is_marker l \<longleftrightarrow> take 2 cs = ''X:''"
    using hd_text_lines_marker [of cs] ls by simp
  show ?case
  proof (cases "c = CHR 0x0A")
    case True
    note c = True
    show ?thesis
    proof (cases "is_marker l")
      case True
      with c ls m show ?thesis
        by (simp add: text_lines_LF lookahead_Cons)
    next
      case False
      with c ls m Cons show ?thesis
        by (simp add: text_lines_LF lookahead_Cons)
    qed
  next
    case False
    with Cons ls show ?thesis
      by (simp add: text_lines_other lookahead_Cons)
  qed
qed

lemma group_lines_fst: "fst (group_lines ls) = takeWhile (Not \<circ> is_marker) ls"
  by (induction ls) (auto split: prod.splits)

lemma group_lines_snd_dropWhile:
  "snd (group_lines (dropWhile (Not \<circ> is_marker) ls)) = snd (group_lines ls)"
  by (induction ls) (auto split: prod.splits)

lemma blocks_of_lines_Nil: "blocks_of_lines [] = []"
  by (simp add: blocks_of_lines_def)

lemma blocks_of_lines_marker:
  "is_marker l \<Longrightarrow> blocks_of_lines (l # ls) =
     (l # takeWhile (Not \<circ> is_marker) ls) # blocks_of_lines (dropWhile (Not \<circ> is_marker) ls)"
  using group_lines_fst [of ls] group_lines_snd_dropWhile [of ls]
  by (cases "group_lines ls") (simp add: blocks_of_lines_def)

lemma blocks_of_lines_other: "\<not> is_marker l \<Longrightarrow> blocks_of_lines (l # ls) = blocks_of_lines ls"
  by (simp add: blocks_of_lines_def split: prod.splits)

lemma findall_from_lines:
  "findall_from prev s =
     map (str_join [CHR 0x0A])
       (blocks_of_lines (if at_line_start prev then text_lines s else tl (text_lines s)))"
proof (induction prev s rule: findall_from.induct)
  case (1 prev s)
  show ?case
  proof (cases "at_line_start prev \<and> take 2 s = ''X:''")
    case True
    then obtain s' where s: "s = CHR ''X'' # CHR '':'' # s'"
      by (cases s; cases "tl s") auto
    obtain l ls where ls: "text_lines s' = l # ls"
      using text_lines_not_Nil [of s'] by (cases "text_lines s'") auto
    have tl_s: "text_lines s = (CHR ''X'' # CHR '':'' # l) # ls"
      using ls by (simp add: s text_lines_other)
    have mk: "is_marker (CHR ''X'' # CHR '':'' # l)"
      by (simp add: is_marker_def)
    define m where "m = take 2 s @ lazy_any (drop 2 s)"
    have m_eq: "m = str_join [CHR 0x0A] ((CHR ''X'' # CHR '':'' # l) # takeWhile (Not \<circ> is_marker) ls)"
      by (simp add: m_def s lazy_any_lines ls str_join_Cons_Cons)
    have rest: "drop (length m) s = drop (length (lazy_any s')) s'"
      by (simp add: m_def s)
    have IH: "findall_from (Some (last m)) (drop (length m) s) =
       map (str_join [CHR 0x0A])
         (blocks_of_lines (if at_line_start (Some (last m)) then text_lines (drop (length m) s)
                           else tl (text_lines (drop (length m) s))))"
      using "1.IH"(1) [OF True m_def] .
    have tail: "blocks_of_lines (if at_line_start (Some (last m)) then text_lines (drop (length m) s)
                           else tl (text_lines (drop (length m) s)))
                = blocks_of_lines (dropWhile (Not \<circ> is_marker) ls)"
    proof (cases "dropWhile (Not \<circ> is_marker) ls")
      case Nil
      with lazy_any_rest1 [of s'] ls have "drop (length m) s = []"
        by (simp add: rest)
      then have "blocks_of_lines (if at_line_start (Some (last m)) then text_lines (drop (length m) s)
                           else tl (text_lines (drop (length m) s))) = []"
        by (simp add: text_lines_Nil blocks_of_lines_Nil blocks_of_lines_other is_marker_def)
      then show ?thesis
        by (simp only: Nil blocks_of_lines_Nil)
    next
      case (Cons a as)
      with lazy_any_rest1 [of s'] lazy_any_rest2 [of s'] ls
      have d: "drop (length m) s = CHR 0x0A # str_join [CHR 0x0A] (a # as)"
        and t: "text_lines (tl (drop (length m) s)) = a # as"
        by (simp_all add: rest)
      from d t have "text_lines (drop (length m) s) = [] # a # as"
        by (simp add: text_lines_LF)
      with Cons show ?thesis
        by (simp add: blocks_of_lines_other is_marker_def)
    qed
    have "findall_from prev s = m # findall_from (Some (last m)) (drop (length m) s)"
      using True by (subst findall_from.simps) (simp add: m_def Let_def)
    with True IH tail m_eq tl_s mk show ?thesis
      by (simp add: blocks_of_lines_marker)
  next
    case False
    note no = False
    show ?thesis
    proof (cases s)
      case Nil
      with no show ?thesis
        by (subst findall_from.simps)
           (simp add: text_lines_Nil blocks_of_lines_Nil blocks_of_lines_other is_marker_def)
    next
      case (Cons c cs)
      obtain l ls where ls: "text_lines cs = l # ls"
        using text_lines_not_Nil [of cs] by (cases "text_lines cs") auto
      have IH: "findall_from (Some c) cs =
        map (str_join [CHR 0x0A])
          (blocks_of_lines (if at_line_start (Some c) then text_lines cs else tl (text_lines cs)))"
        using "1.IH"(2) [OF no Cons] .
      have "findall_from prev s = (case s of [] \<Rightarrow> [] | c # cs \<Rightarrow> findall_from (Some c) cs)"
        by (subst findall_from.simps) (simp only: no if_False)
      then have step: "findall_from prev s = findall_from (Some c) cs"
        by (simp add: Cons)
      have nm: "at_line_start prev \<Longrightarrow> \<not> is_marker (hd (text_lines s))"
        using no hd_text_lines_marker [of s] by simp
      show ?thesis
      proof (cases "c = CHR 0x0A")
        case True
        with step IH Cons show ?thesis
          by (simp add: text_lines_LF at_line_start_def blocks_of_lines_other is_marker_def)
      next
        case False
        with step IH Cons ls nm show ?thesis
          by (auto simp: text_lines_other at_line_start_def blocks_of_lines_other)
      qed
    qed
  qed
qed


lemma group_lines_props:
  "ls = fst (group_lines ls) @ concat (snd (group_lines ls))
   \<and> length (snd (group_lines ls)) = length (filter is_marker ls)
   \<and> (\<forall>b \<in> set (snd (group_lines ls)). b \<noteq> [] \<and> is_marker (hd b) \<and> (\<forall>l \<in> set (tl b). \<not> is_marker l))"
proof (induction ls)
  case Nil
  then show ?case by simp
next
  case (Cons l ls)
  obtain p bs where g: "group_lines ls = (p, bs)"
    by (cases "group_lines ls")
  have p: "\<forall>x \<in> set p. \<not> is_marker x"
    using group_lines_fst [of ls] g by (auto dest: set_takeWhileD)
  from Cons g p show ?case
    by (cases "is_marker l") auto
qed

lemma findall_lines: "findall content = map (str_join [CHR 0x0A]) (blocks_of_lines (text_lines content))"
  by (simp add: findall_def findall_from_lines at_line_start_def)

section \<open>The Segmenter: claims\<close>

text \<open>
  Claim C1. For every text, the blocks that the Segmenter yields are the blocks of the
  lines of the text (the pieces between line feeds): there are as many blocks as lines
  that begin with \<open>X:\<close> (none when there is no such line); the lines of the text are the
  lines before the first such line, which give no block, followed by the lines of the
  blocks in their order; and each block begins with a line that begins with \<open>X:\<close> and
  holds no other such line.
\<close>
theorem segmenter_blocks:
  "findall content = map (str_join [CHR 0x0A]) (blocks_of_lines (text_lines content))
   \<and> length (findall content) = length (filter is_marker (text_lines content))
   \<and> text_lines content =
       takeWhile (Not \<circ> is_marker) (text_lines content) @ concat (blocks_of_lines (text_lines content))
   \<and> (\<forall>b \<in> set (blocks_of_lines (text_lines content)).
         b \<noteq> [] \<and> is_marker (hd b) \<and> (\<forall>l \<in> set (tl b). \<not> is_marker l))"
  using group_lines_props [of "text_lines content"] group_lines_fst [of "text_lines content"]
  by (simp add: findall_lines blocks_of_lines_def)

text \<open>An instance of C1: a comment, two tunes; and a text without a marker.\<close>
theorem segmenter_blocks_witness:
  "findall ''% tunes\<newline>X:1\<newline>T:a\<newline>\<newline>X:2\<newline>K:D'' = [''X:1\<newline>T:a\<newline>'', ''X:2\<newline>K:D'']
   \<and> text_lines ''% tunes\<newline>X:1\<newline>T:a\<newline>\<newline>X:2\<newline>K:D'' = [''% tunes'', ''X:1'', ''T:a'', [], ''X:2'', ''K:D'']
   \<and> filter is_marker (text_lines ''% tunes\<newline>X:1\<newline>T:a\<newline>\<newline>X:2\<newline>K:D'') = [''X:1'', ''X:2'']
   \<and> blocks_of_lines (text_lines ''% tunes\<newline>X:1\<newline>T:a\<newline>\<newline>X:2\<newline>K:D'') = [[''X:1'', ''T:a'', []], [''X:2'', ''K:D'']]
   \<and> findall ''no marker here\<newline> X:1'' = []"
  using segmenter_blocks [of "''% tunes\<newline>X:1\<newline>T:a\<newline>\<newline>X:2\<newline>K:D''"]
    segmenter_blocks [of "''no marker here\<newline> X:1''"]
  by (simp add: text_lines_def is_marker_def blocks_of_lines_def)

section \<open>The Book Resolver\<close>

lemma book_number_examples:
  "get_book_number_from_path ''/home/u'' ''abc_books/2/t.abc'' ''abc_books'' = Inr (Some 2)"
  "get_book_number_from_path ''/home/u'' ''abc_books/t.abc'' ''abc_books'' = Inr None"
  "get_book_number_from_path ''/home/u'' ''abc_books/abc/t.abc'' ''abc_books'' = Inr None"
  "get_book_number_from_path ''/home/u'' [] ''abc_books'' = Inl ValueError"
  by (simp_all add: get_book_number_from_path_def relpath_def abspath_def normpath_def path_join_def
      startswith_def endswith_def isdigit_def isdigit_char_def py_int_def digit_value_def
      py_index_def Let_def)

text \<open>
  Claim C4 says that the Book Resolver returns the first segment of the relative path as
  an integer when the path has two segments or more and that segment is made of decimal
  digits, and returns absent in every other case. The guard of the code is \<open>isdigit\<close>,
  which also accepts the superscript digits, and \<open>int\<close> rejects them: for a folder named
  with the one character U+00B2 the function returns nothing and raises ValueError.
\<close>
theorem book_number_superscript_digit_raises:
  "isdigit [CHR 0xB2]
   \<and> relpath ''/home/u'' (''abc_books/'' @ [CHR 0xB2] @ ''/t.abc'') ''abc_books'' = Inr ([CHR 0xB2] @ ''/t.abc'')
   \<and> get_book_number_from_path ''/home/u'' (''abc_books/'' @ [CHR 0xB2] @ ''/t.abc'') ''abc_books''
       = Inl ValueError"
  by (simp add: get_book_number_from_path_def relpath_def abspath_def normpath_def path_join_def
      startswith_def endswith_def isdigit_def isdigit_char_def py_int_def digit_value_def
      py_index_def Let_def)

section \<open>The Importer\<close>

text \<open>
  Claim C8 says that for every corpus root the Importer goes through the files whose
  name ends in \<open>.abc\<close>, in any letter case, in sorted order, resolves the book once for
  each, appends one row for each record and returns the number of rows appended. On a
  corpus with a tune file in a folder named U+00B2, the file is found and holds one
  tune, and the run ends with the ValueError of the Book Resolver: no count is returned.
\<close>
theorem import_superscript_digit_folder_raises:
  "find_abc_files
     \<lparr>getcwd = ''/home/u'',
      walk = (\<lambda>d. [(''abc_books'', [[CHR 0xB2]], [''notes.txt'']),
                   (''abc_books/'' @ [CHR 0xB2], [], [''a.ABC''])]),
      read_text = (\<lambda>p. ''X:1\<newline>T:a''),
      utcnow = (\<lambda>k. ''2024-01-01T00:00:00'')\<rparr> ''abc_books''
     = [''abc_books/'' @ [CHR 0xB2] @ ''/a.ABC'']
   \<and> parse_abc_file
     \<lparr>getcwd = ''/home/u'',
      walk = (\<lambda>d. [(''abc_books'', [[CHR 0xB2]], [''notes.txt'']),
                   (''abc_books/'' @ [CHR 0xB2], [], [''a.ABC''])]),
      read_text = (\<lambda>p. ''X:1\<newline>T:a''),
      utcnow = (\<lambda>k. ''2024-01-01T00:00:00'')\<rparr> (''abc_books/'' @ [CHR 0xB2] @ ''/a.ABC'')
     = Inr [\<lparr>x_number = Some ''1'', titles = [''a''], composer = None, rhythm = None,
             meter = None, unit_length = None, key = None, tune_text = ''X:1\<newline>T:a'',
             title = Some ''a''\<rparr>]
   \<and> import_abc_books
     \<lparr>getcwd = ''/home/u'',
      walk = (\<lambda>d. [(''abc_books'', [[CHR 0xB2]], [''notes.txt'']),
                   (''abc_books/'' @ [CHR 0xB2], [], [''a.ABC''])]),
      read_text = (\<lambda>p. ''X:1\<newline>T:a''),
      utcnow = (\<lambda>k. ''2024-01-01T00:00:00'')\<rparr> [] ''abc_books''
     = Inl ValueError"
proof (intro conjI)
  show "find_abc_files
     \<lparr>getcwd = ''/home/u'',
      walk = (\<lambda>d. [(''abc_books'', [[CHR 0xB2]], [''notes.txt'']),
                   (''abc_books/'' @ [CHR 0xB2], [], [''a.ABC''])]),
      read_text = (\<lambda>p. ''X:1\<newline>T:a''),
      utcnow = (\<lambda>k. ''2024-01-01T00:00:00'')\<rparr> ''abc_books''
     = [''abc_books/'' @ [CHR 0xB2] @ ''/a.ABC'']"
    by (simp add: find_abc_files_def path_join_def startswith_def endswith_def lower_def
        lower1_def upper_letters_def lower_letters_def)
  show "parse_abc_file
     \<lparr>getcwd = ''/home/u'',
      walk = (\<lambda>d. [(''abc_books'', [[CHR 0xB2]], [''notes.txt'']),
                   (''abc_books/'' @ [CHR 0xB2], [], [''a.ABC''])]),
      read_text = (\<lambda>p. ''X:1\<newline>T:a''),
      utcnow = (\<lambda>k. ''2024-01-01T00:00:00'')\<rparr> (''abc_books/'' @ [CHR 0xB2] @ ''/a.ABC'')
     = Inr [\<lparr>x_number = Some ''1'', titles = [''a''], composer = None, rhythm = None,
             meter = None, unit_length = None, key = None, tune_text = ''X:1\<newline>T:a'',
             title = Some ''a''\<rparr>]"
    by (simp add: parse_abc_file_def parse_content_def findall_lines text_lines_def is_marker_def
        blocks_of_lines_def parse_tune_block_eq init_fields_def step_line_def tag_line_def
        line_value_def strip_def isspace_def is_linebreak_def)
  show "import_abc_books
     \<lparr>getcwd = ''/home/u'',
      walk = (\<lambda>d. [(''abc_books'', [[CHR 0xB2]], [''notes.txt'']),
                   (''abc_books/'' @ [CHR 0xB2], [], [''a.ABC''])]),
      read_text = (\<lambda>p. ''X:1\<newline>T:a''),
      utcnow = (\<lambda>k. ''2024-01-01T00:00:00'')\<rparr> [] ''abc_books''
     = Inl ValueError"
    by (simp add: import_abc_books_def find_abc_files_def path_join_def startswith_def
        endswith_def lower_def lower1_def upper_letters_def lower_letters_def
        get_book_number_from_path_def relpath_def abspath_def normpath_def isdigit_def
        isdigit_char_def py_int_def digit_value_def py_index_def Let_def)
qed

section \<open>The queries\<close>

text \<open>
  Claim C3 says that \<open>byCategory\<close> and \<open>search\<close> keep the rows whose rhythm, or title,
  contains the term as a substring, letter case aside. \<open>contains\<close> reads the term as a
  regular expression: the term \<open>.\<close> keeps a row whose rhythm is \<open>Reel\<close>, and the term
  \<open>c.o\<close> a row whose title is \<open>Cooley\<close>, though neither term is a substring there.
\<close>
theorem contains_is_regex_search:
  "get_tunes_by_type
     [\<lparr>db_book = Some 1, db_file_path = ''abc_books/1/a.abc'', db_x_number = Some ''1'',
       db_title = Some ''Cooley'', db_composer = None, db_rhythm = Some ''Reel'',
       db_meter = None, db_unit_length = None, db_key = None, db_tune_text = ''X:1'',
       db_date_added = ''2024-01-01T00:00:00''\<rparr>] ''.''
   = Some [\<lparr>db_book = Some 1, db_file_path = ''abc_books/1/a.abc'', db_x_number = Some ''1'',
       db_title = Some ''Cooley'', db_composer = None, db_rhythm = Some ''Reel'',
       db_meter = None, db_unit_length = None, db_key = None, db_tune_text = ''X:1'',
       db_date_added = ''2024-01-01T00:00:00''\<rparr>]
   \<and> \<not> sublist (lower ''.'') (lower (fillna [] (Some ''Reel'')))
   \<and> search_tunes
     [\<lparr>db_book = Some 1, db_file_path = ''abc_books/1/a.abc'', db_x_number = Some ''1'',
       db_title = Some ''Cooley'', db_composer = None, db_rhythm = Some ''Reel'',
       db_meter = None, db_unit_length = None, db_key = None, db_tune_text = ''X:1'',
       db_date_added = ''2024-01-01T00:00:00''\<rparr>] ''c.o''
   = Some [\<lparr>db_book = Some 1, db_file_path = ''abc_books/1/a.abc'', db_x_number = Some ''1'',
       db_title = Some ''Cooley'', db_composer = None, db_rhythm = Some ''Reel'',
       db_meter = None, db_unit_length = None, db_key = None, db_tune_text = ''X:1'',
       db_date_added = ''2024-01-01T00:00:00''\<rparr>]
   \<and> \<not> sublist (lower ''c.o'') (lower (fillna [] (Some ''Cooley'')))"
proof -
  have l: "lower ''.'' = ''.''" "lower ''Reel'' = ''reel''" "lower ''c.o'' = ''c.o''"
    "lower ''Cooley'' = ''cooley''"
    by (simp_all add: lower_def lower1_def upper_letters_def lower_letters_def)
  have n: "\<not> sublist ''.'' ''reel''" "\<not> sublist ''c.o'' ''cooley''"
    by (simp_all add: sublist_Cons_right)
  show ?thesis
    using n by (simp add: get_tunes_by_type_def search_tunes_def rows_containing_def l
        fillna_def special_chars_def)
qed

section \<open>Empty composer\<close>

lemma strip_all_space:
  assumes "list_all isspace s"
  shows "strip s = []"
proof -
  from assms have "dropWhile isspace s = []"
    by (simp add: list_all_iff dropWhile_eq_Nil_conv)
  then show ?thesis
    by (simp only: strip_def rev.simps dropWhile.simps)
qed

lemma tally_keys: "map fst (tally acc x) = (if x \<in> fst ` set acc then map fst acc else map fst acc @ [x])"
  by (induction acc x rule: tally.induct) auto

lemma tally_distinct: "distinct (map fst acc) \<Longrightarrow> distinct (map fst (tally acc x))"
  by (simp add: tally_keys)

lemma tally_map_of:
  "map_of (tally acc x) = (map_of acc)(x \<mapsto> (case map_of acc x of None \<Rightarrow> 1 | Some n \<Rightarrow> n + 1))"
  by (induction acc x rule: tally.induct) (auto simp: fun_eq_iff)

lemma foldl_tally_map_of:
  "map_of (foldl tally acc xs) v =
     (if v \<in> set xs
      then Some (count_list xs v + (case map_of acc v of None \<Rightarrow> 0 | Some n \<Rightarrow> n))
      else map_of acc v)"
  by (induction xs arbitrary: acc) (auto simp: tally_map_of split: option.splits)

lemma foldl_tally_distinct:
  "distinct (map fst acc) \<Longrightarrow> distinct (map fst (foldl tally acc xs))"
  by (induction xs arbitrary: acc) (simp_all add: tally_distinct)

lemma count_values_map_of:
  "map_of (count_values xs) v = (if v \<in> set xs then Some (count_list xs v) else None)"
  by (simp add: count_values_def foldl_tally_map_of)

lemma count_values_mem:
  "v \<in> set xs \<Longrightarrow> (v, count_list xs v) \<in> set (count_values xs)"
  using count_values_map_of [of xs v] by (auto dest: map_of_SomeD)

lemma count_values_length: "length (count_values xs) \<le> length xs"
proof -
  have "length (foldl tally acc xs) \<le> length acc + length xs" for acc :: "('a \<times> nat) list"
  proof (induction xs arbitrary: acc)
    case Nil
    then show ?case by simp
  next
    case (Cons x xs)
    have "length (tally acc x) \<le> Suc (length acc)"
      using arg_cong [OF tally_keys [of acc x], of length] by (simp split: if_splits)
    with Cons [of "tally acc x"] show ?case by simp
  qed
  from this [of "[]"] show ?thesis by (simp add: count_values_def)
qed

lemma count_list_map_filter: "count_list (map f xs) v = length (filter (\<lambda>x. f x = v) xs)"
  by (induction xs) auto

lemma fillna_Unknown_empty: "fillna ''Unknown'' c = [] \<longleftrightarrow> c = Some []"
  by (cases c) (simp_all add: fillna_def)

text \<open>
  Claim C10 says that every block with a composer line of empty value has the empty
  string as its composer. The last composer line decides: in the block below an empty
  composer line comes before \<open>C:Bach\<close>, and the composer is \<open>Bach\<close>.
\<close>
theorem empty_composer_line_overwritten:
  "splitlines (strip ''X:1\<newline>C: \<newline>C:Bach'') = [''X:1'', ''C: '', ''C:Bach'']
   \<and> tag_line CHR ''C'' CHR ''c'' ''C: ''
   \<and> list_all isspace (drop 2 ''C: '')
   \<and> parse_tune_block ''X:1\<newline>C: \<newline>C:Bach'' =
       Inr \<lparr>x_number = Some ''1'', titles = [], composer = Some ''Bach'', rhythm = None,
            meter = None, unit_length = None, key = None,
            tune_text = ''X:1\<newline>C: \<newline>C:Bach'', title = None\<rparr>"
  by (simp add: parse_tune_block_eq init_fields_def step_line_def tag_line_def line_value_def
      strip_def isspace_def is_linebreak_def)

text \<open>
  Claim C10, amended. For every block whose last composer line (\<open>C:\<close> or \<open>c:\<close>) has only
  white space after the colon, the extracted composer is the empty string, not absent;
  \<open>fillna\<close> leaves it empty and gives \<open>Unknown\<close> to an absent composer only; the row
  written for the record has the empty composer; and the tally of \<open>top_composers\<close> lists
  the empty label with the number of rows whose composer is the empty string (for every
  ordering of the tally that keeps its rows, with \<open>top_n\<close> the number of rows of the data).
\<close>
theorem last_empty_composer_line:
  assumes "splitlines (strip block) = before @ line # after"
    and "tag_line CHR ''C'' CHR ''c'' line"
    and "list_all isspace (drop 2 line)"
    and "\<forall>l \<in> set after. \<not> tag_line CHR ''C'' CHR ''c'' l"
    and "\<forall>xs. length (sort_values xs) = length xs \<and> set (sort_values xs) = set xs"
  shows "\<exists>r. parse_tune_block block = Inr r \<and> composer r = Some []
           \<and> fillna ''Unknown'' (composer r) = []
           \<and> fillna ''Unknown'' None = ''Unknown''
           \<and> db_composer (last (insert_tune conn r book fpath now)) = Some []
           \<and> ((\<exists>row \<in> set df. db_composer row = Some []) \<longrightarrow>
                ([], length (filter (\<lambda>row. db_composer row = Some []) df))
                  \<in> set (top_composers sort_values df (int (length df))))"
proof -
  let ?f = "foldl step_line (init_fields block) (splitlines (strip block))"
  let ?r = "?f\<lparr>title := if titles ?f \<noteq> [] then Some (str_join '' / '' (titles ?f)) else None\<rparr>"
  have v: "line_value line = []"
    using assms(3) by (simp add: line_value_def strip_all_space)
  have "filter (tag_line CHR ''C'' CHR ''c'') after = []"
    using assms(4) by (simp add: filter_empty_conv)
  then have "tag_values CHR ''C'' CHR ''c'' (splitlines (strip block)) =
      tag_values CHR ''C'' CHR ''c'' before @ [[]]"
    using assms(1,2) v by (simp add: tag_values_def)
  then have c: "composer ?r = Some []"
    by (simp add: foldl_step_composer last_or_def)
  let ?comp = "map (\<lambda>row. fillna ''Unknown'' (db_composer row)) df"
  have top: "([], length (filter (\<lambda>row. db_composer row = Some []) df))
                  \<in> set (top_composers sort_values df (int (length df)))"
    if "\<exists>row \<in> set df. db_composer row = Some []"
  proof -
    from that have "[] \<in> set ?comp"
      by (force simp: fillna_def)
    then have "([], count_list ?comp []) \<in> set (count_values ?comp)"
      by (rule count_values_mem)
    moreover have "count_list ?comp [] = length (filter (\<lambda>row. db_composer row = Some []) df)"
      by (simp add: count_list_map_filter fillna_Unknown_empty)
    moreover have "length (sort_values (count_values ?comp)) \<le> length df"
      using assms(5) count_values_length [of ?comp] by simp
    ultimately show ?thesis
      using assms(5) by (simp add: top_composers_def head_def)
  qed
  have "parse_tune_block block = Inr ?r"
    by (rule parse_tune_block_eq)
  moreover have "fillna ''Unknown'' (composer ?r) = []"
    using c by (simp add: fillna_def)
  moreover have "fillna ''Unknown'' None = ''Unknown''"
    by (simp add: fillna_def)
  moreover have "db_composer (last (insert_tune conn ?r book fpath now)) = Some []"
    using c by (simp add: insert_tune_def)
  ultimately show ?thesis
    using c top by blast
qed

text \<open>An instance: a block whose last composer line is empty, and a one-row table.\<close>
theorem last_empty_composer_line_witness:
  "splitlines (strip ''X:1\<newline>c:Anon\<newline>C: \<newline>K:D'') = [''X:1'', ''c:Anon''] @ ''C: '' # [''K:D'']
   \<and> tag_line CHR ''C'' CHR ''c'' ''C: ''
   \<and> list_all isspace (drop 2 ''C: '')
   \<and> \<not> tag_line CHR ''C'' CHR ''c'' ''K:D''
   \<and> (\<exists>r. parse_tune_block ''X:1\<newline>c:Anon\<newline>C: \<newline>K:D'' = Inr r \<and> composer r = Some []
          \<and> fillna ''Unknown'' (composer r) = [])
   \<and> ([], 1) \<in> set (top_composers (\<lambda>xs. rev (sort_key snd xs))
        [\<lparr>db_book = None, db_file_path = ''a.abc'', db_x_number = Some ''1'', db_title = None,
          db_composer = Some [], db_rhythm = None, db_meter = None, db_unit_length = None,
          db_key = Some ''D'', db_tune_text = ''X:1'', db_date_added = ''t''\<rparr>] 1)"
proof -
  have 1: "splitlines (strip ''X:1\<newline>c:Anon\<newline>C: \<newline>K:D'') = [''X:1'', ''c:Anon''] @ ''C: '' # [''K:D'']"
    by (simp add: strip_def isspace_def is_linebreak_def)
  have 2: "tag_line CHR ''C'' CHR ''c'' ''C: ''"
    by (simp add: tag_line_def)
  have 3: "list_all isspace (drop 2 ''C: '')"
    by (simp add: isspace_def)
  have 4: "\<forall>l \<in> set [''K:D'']. \<not> tag_line CHR ''C'' CHR ''c'' l"
    by (simp add: tag_line_def)
  have 5: "\<forall>xs :: (string \<times> nat) list.
      length (rev (sort_key snd xs)) = length xs \<and> set (rev (sort_key snd xs)) = set xs"
    by simp
  let ?df = "[\<lparr>db_book = None, db_file_path = ''a.abc'', db_x_number = Some ''1'', db_title = None,
          db_composer = Some [], db_rhythm = None, db_meter = None, db_unit_length = None,
          db_key = Some ''D'', db_tune_text = ''X:1'', db_date_added = ''t''\<rparr>]"
  from last_empty_composer_line [OF 1 2 3 4 5, of "[]" None "''a.abc''" "''t''" ?df]
  show ?thesis
    using 1 2 3 by (auto simp: tag_line_def)
qed

end
